theory Spec2Isabelle
  imports
    Complex_Main
    "HOL-Library.Sublist"
    "HOL-Library.Multiset"
    "HOL-Library.Char_ord"
    "HOL-Library.List_Lexorder"
begin

section \<open>Event records and search criteria\<close>

text \<open>
  An event record as the events page reads it. \<open>date\<close> is the time value (milliseconds
  since the epoch) that \<^verbatim>\<open>new Date(event.date)\<close> yields; \<open>price\<close> is a finite number
  (the sign of a difference of two finite numbers is the sign of their comparison, which
  is all the comparator and the price filter use); \<open>attendees\<close> and \<open>tags\<close> may be
  absent.
\<close>

record event =
  eventId :: string
  title :: string
  description :: string
  location :: string
  category :: string
  date :: int
  price :: rat
  isOnline :: bool
  attendees :: "nat option"
  tags :: "string list option"

text \<open>The criteria are the five \<^verbatim>\<open>useState\<close> cells the filter effect depends on.\<close>

record criteria =
  searchQuery :: string
  selectedCategory :: string
  selectedType :: string
  priceRange :: "rat \<times> rat"
  sortBy :: string

section \<open>String operations of the host\<close>

text \<open>
  \<^verbatim>\<open>String.prototype.toLowerCase\<close> is the host's: it follows the Unicode case
  mapping. It is taken as a parameter \<open>toLowerCase\<close> of every function that lowers a
  string, so nothing is assumed about what it does to any character. \<open>asciiLowerCase\<close>
  is what it does to a string of ASCII characters: the letters A to Z are lowered, every
  other character stays. It is used on concrete ASCII inputs only.
\<close>

definition asciiLowerChar :: "char \<Rightarrow> char" where
  "asciiLowerChar ch =
     (let n = (of_char ch :: nat) in if 65 \<le> n \<and> n \<le> 90 then char_of (n + 32) else ch)"

definition asciiLowerCase :: "string \<Rightarrow> string" where
  "asciiLowerCase s = map asciiLowerChar s"

text \<open>\<^verbatim>\<open>s.includes(q)\<close>: \<open>q\<close> occurs in \<open>s\<close> at some position.\<close>

fun stringIncludes :: "string \<Rightarrow> string \<Rightarrow> bool" where
  "stringIncludes [] q = (q = [])"
| "stringIncludes (ch # s) q = (prefix q (ch # s) \<or> stringIncludes s q)"

text \<open>
  \<^verbatim>\<open>a.localeCompare(b)\<close> is the collation of the host's locale. A collation compares
  the sort keys of the two strings, so it is taken as a parameter \<open>collate\<close>, the function
  from a string to its sort key.
\<close>

definition localeCompare :: "(string \<Rightarrow> 'k::linorder) \<Rightarrow> string \<Rightarrow> string \<Rightarrow> int" where
  "localeCompare collate a b =
     (if collate a < collate b then - 1 else if collate a = collate b then 0 else 1)"

section \<open>The filter steps\<close>

definition matchesSearch ::
  "(string \<Rightarrow> string) \<Rightarrow> string \<Rightarrow> event \<Rightarrow> bool" where
  "matchesSearch toLowerCase query e =
     (stringIncludes (toLowerCase (title e)) query \<or>
      stringIncludes (toLowerCase (description e)) query \<or>
      stringIncludes (toLowerCase (location e)) query \<or>
      (case tags e of
         None \<Rightarrow> False
       | Some ts \<Rightarrow> list_ex (\<lambda>tag. stringIncludes (toLowerCase tag) query) ts))"

definition searchFilter ::
  "(string \<Rightarrow> string) \<Rightarrow> 'a criteria_scheme \<Rightarrow> event list \<Rightarrow> event list" where
  "searchFilter toLowerCase c filtered =
     (if searchQuery c \<noteq> [] then
        (let query = toLowerCase (searchQuery c) in filter (matchesSearch toLowerCase query) filtered)
      else filtered)"

definition categoryFilter :: "'a criteria_scheme \<Rightarrow> event list \<Rightarrow> event list" where
  "categoryFilter c filtered =
     (if selectedCategory c \<noteq> [] then
        filter (\<lambda>e. category e = selectedCategory c) filtered
      else filtered)"

definition typeFilter :: "'a criteria_scheme \<Rightarrow> event list \<Rightarrow> event list" where
  "typeFilter c filtered =
     (if selectedType c \<noteq> [] then
        (if selectedType c = ''online'' then filter (\<lambda>e. isOnline e) filtered
         else if selectedType c = ''offline'' then filter (\<lambda>e. \<not> isOnline e) filtered
         else filtered)
      else filtered)"

definition priceFilter :: "'a criteria_scheme \<Rightarrow> event list \<Rightarrow> event list" where
  "priceFilter c filtered =
     filter (\<lambda>e. price e \<ge> fst (priceRange c) \<and> price e \<le> snd (priceRange c)) filtered"

section \<open>The sort step\<close>

text \<open>The value the comparator returns for two events; unknown keys return 0.\<close>

definition attendeesOr0 :: "event \<Rightarrow> int" where
  "attendeesOr0 e = (case attendees e of None \<Rightarrow> 0 | Some n \<Rightarrow> int n)"

definition sortComparator ::
  "(string \<Rightarrow> 'k::linorder) \<Rightarrow> string \<Rightarrow> event \<Rightarrow> event \<Rightarrow> rat" where
  "sortComparator collate key a b =
     (if key = ''date'' then of_int (date a - date b)
      else if key = ''price-low'' then price a - price b
      else if key = ''price-high'' then price b - price a
      else if key = ''popularity'' then of_int (attendeesOr0 b - attendeesOr0 a)
      else if key = ''name'' then of_int (localeCompare collate (title a) (title b))
      else 0)"

text \<open>
  \<^verbatim>\<open>Array.prototype.sort(comparefn)\<close> is a stable sort; with a consistent comparator
  its result is determined. It is modelled by the stable insertion sort: an element goes
  in front of the first element it does not compare greater than.
\<close>

fun insertBy :: "('a \<Rightarrow> 'a \<Rightarrow> rat) \<Rightarrow> 'a \<Rightarrow> 'a list \<Rightarrow> 'a list" where
  "insertBy cmp x [] = [x]"
| "insertBy cmp x (y # ys) = (if cmp x y \<le> 0 then x # y # ys else y # insertBy cmp x ys)"

definition arraySort :: "('a \<Rightarrow> 'a \<Rightarrow> rat) \<Rightarrow> 'a list \<Rightarrow> 'a list" where
  "arraySort cmp xs = foldr (insertBy cmp) xs []"

definition sortEvents ::
  "(string \<Rightarrow> 'k::linorder) \<Rightarrow> 'a criteria_scheme \<Rightarrow> event list \<Rightarrow> event list" where
  "sortEvents collate c filtered = arraySort (sortComparator collate (sortBy c)) filtered"

section \<open>The derivation\<close>

text \<open>The body of the "Apply filters" effect: the value it passes to \<^verbatim>\<open>setFilteredEvents\<close>.\<close>

definition derive ::
  "(string \<Rightarrow> 'k::linorder) \<Rightarrow> (string \<Rightarrow> string) \<Rightarrow> 'a criteria_scheme \<Rightarrow> event list \<Rightarrow> event list" where
  "derive collate toLowerCase c events =
     sortEvents collate c (priceFilter c (typeFilter c (categoryFilter c (searchFilter toLowerCase c events))))"

text \<open>The four filter steps by name, to apply them in another order than the effect's.\<close>

datatype filterStep = SearchStep | CategoryStep | TypeStep | PriceStep

fun applyStep ::
  "(string \<Rightarrow> string) \<Rightarrow> 'a criteria_scheme \<Rightarrow> filterStep \<Rightarrow> event list \<Rightarrow> event list" where
  "applyStep toLowerCase c SearchStep filtered = searchFilter toLowerCase c filtered"
| "applyStep toLowerCase c CategoryStep filtered = categoryFilter c filtered"
| "applyStep toLowerCase c TypeStep filtered = typeFilter c filtered"
| "applyStep toLowerCase c PriceStep filtered = priceFilter c filtered"

definition applySteps ::
  "(string \<Rightarrow> string) \<Rightarrow> 'a criteria_scheme \<Rightarrow> filterStep list \<Rightarrow> event list \<Rightarrow> event list" where
  "applySteps toLowerCase c steps events = fold (applyStep toLowerCase c) steps events"

text \<open>What each step asks of a single record.\<close>

fun stepPasses ::
  "(string \<Rightarrow> string) \<Rightarrow> 'a criteria_scheme \<Rightarrow> filterStep \<Rightarrow> event \<Rightarrow> bool" where
  "stepPasses toLowerCase c SearchStep e =
     (searchQuery c = [] \<or> matchesSearch toLowerCase (toLowerCase (searchQuery c)) e)"
| "stepPasses toLowerCase c CategoryStep e = (selectedCategory c = [] \<or> category e = selectedCategory c)"
| "stepPasses toLowerCase c TypeStep e =
     (if selectedType c = ''online'' then isOnline e
      else if selectedType c = ''offline'' then \<not> isOnline e
      else True)"
| "stepPasses toLowerCase c PriceStep e = (fst (priceRange c) \<le> price e \<and> price e \<le> snd (priceRange c))"

section \<open>What the properties say\<close>

text \<open>
  The text filter in the words of its description: the lowercased query occurs in the
  lowercased title, description or location, or in some lowercased tag.
\<close>

definition textMatch ::
  "(string \<Rightarrow> string) \<Rightarrow> string \<Rightarrow> event \<Rightarrow> bool" where
  "textMatch toLowerCase q e =
     (sublist (toLowerCase q) (toLowerCase (title e)) \<or>
      sublist (toLowerCase q) (toLowerCase (description e)) \<or>
      sublist (toLowerCase q) (toLowerCase (location e)) \<or>
      (\<exists>tag \<in> (case tags e of None \<Rightarrow> {} | Some ts \<Rightarrow> set ts).
         sublist (toLowerCase q) (toLowerCase tag)))"

text \<open>
  \<open>ys\<close> is \<open>xs\<close> stably sorted by the preorder \<open>le\<close>: the same records, in order, and
  the records that tie with any given record stand in \<open>ys\<close> as they stood in \<open>xs\<close>.
\<close>

definition stablySorted :: "('a \<Rightarrow> 'a \<Rightarrow> bool) \<Rightarrow> 'a list \<Rightarrow> 'a list \<Rightarrow> bool" where
  "stablySorted le xs ys \<longleftrightarrow>
     mset ys = mset xs \<and> sorted_wrt le ys \<and>
     (\<forall>x. filter (\<lambda>y. le x y \<and> le y x) ys = filter (\<lambda>y. le x y \<and> le y x) xs)"

section \<open>The page state\<close>

text \<open>
  \<^verbatim>\<open>URLSearchParams\<close>: the pairs in order; \<^verbatim>\<open>get\<close> reads the first value of a name,
  \<^verbatim>\<open>set\<close> replaces the first pair of the name and drops the others, or appends.
\<close>

type_synonym urlSearchParams = "(string \<times> string) list"

definition params_get :: "urlSearchParams \<Rightarrow> string \<Rightarrow> string option" where
  "params_get params name = map_of params name"

fun params_set :: "string \<Rightarrow> string \<Rightarrow> urlSearchParams \<Rightarrow> urlSearchParams" where
  "params_set name v [] = [(name, v)]"
| "params_set name v (p # ps) =
     (if fst p = name then (name, v) # filter (\<lambda>p'. fst p' \<noteq> name) ps
      else p # params_set name v ps)"

record page = criteria +
  events :: "event list"
  filteredEvents :: "event list"
  loading :: bool
  showFilters :: bool
  searchParams :: urlSearchParams

text \<open>The initial values of the \<^verbatim>\<open>useState\<close> cells, given the URL the page opens with.\<close>

definition initialState :: "urlSearchParams \<Rightarrow> page" where
  "initialState sp =
     \<lparr>searchQuery = (case params_get sp ''search'' of None \<Rightarrow> [] | Some v \<Rightarrow> v),
      selectedCategory = (case params_get sp ''category'' of None \<Rightarrow> [] | Some v \<Rightarrow> v),
      selectedType = [],
      priceRange = (0, 1000),
      sortBy = ''date'',
      events = [],
      filteredEvents = [],
      loading = True,
      showFilters = False,
      searchParams = sp\<rparr>"

text \<open>The two effects that follow a render.\<close>

definition applyFiltersEffect ::
  "(string \<Rightarrow> 'k::linorder) \<Rightarrow> (string \<Rightarrow> string) \<Rightarrow> page \<Rightarrow> page" where
  "applyFiltersEffect collate toLowerCase st = st\<lparr>filteredEvents := derive collate toLowerCase st (events st)\<rparr>"

definition buildParams :: "'a criteria_scheme \<Rightarrow> urlSearchParams" where
  "buildParams c =
     (let params = [];
          params = (if searchQuery c \<noteq> [] then params_set ''search'' (searchQuery c) params
                    else params);
          params = (if selectedCategory c \<noteq> []
                    then params_set ''category'' (selectedCategory c) params
                    else params)
      in params)"

definition updateUrlEffect :: "page \<Rightarrow> page" where
  "updateUrlEffect st = st\<lparr>searchParams := buildParams st\<rparr>"

text \<open>
  Mounting runs both effects; the load effect delivers the events later. A setter that
  changes a cell is followed by a render and by the effects that depend on the cell; a
  setter called with the value the cell holds changes nothing. A price range is a fresh
  array at every call, so the filter effect always follows it.
\<close>

definition mountPage ::
  "(string \<Rightarrow> 'k::linorder) \<Rightarrow> (string \<Rightarrow> string) \<Rightarrow> urlSearchParams \<Rightarrow> page" where
  "mountPage collate toLowerCase sp = updateUrlEffect (applyFiltersEffect collate toLowerCase (initialState sp))"

definition setEvents ::
  "(string \<Rightarrow> 'k::linorder) \<Rightarrow> (string \<Rightarrow> string) \<Rightarrow> event list \<Rightarrow> page \<Rightarrow> page" where
  "setEvents collate toLowerCase mockEvents st =
     applyFiltersEffect collate toLowerCase (st\<lparr>events := mockEvents, loading := False\<rparr>)"

definition setSearchQuery ::
  "(string \<Rightarrow> 'k::linorder) \<Rightarrow> (string \<Rightarrow> string) \<Rightarrow> string \<Rightarrow> page \<Rightarrow> page" where
  "setSearchQuery collate toLowerCase q st =
     (if q = searchQuery st then st
      else updateUrlEffect (applyFiltersEffect collate toLowerCase (st\<lparr>searchQuery := q\<rparr>)))"

definition setSelectedCategory ::
  "(string \<Rightarrow> 'k::linorder) \<Rightarrow> (string \<Rightarrow> string) \<Rightarrow> string \<Rightarrow> page \<Rightarrow> page" where
  "setSelectedCategory collate toLowerCase cat st =
     (if cat = selectedCategory st then st
      else updateUrlEffect (applyFiltersEffect collate toLowerCase (st\<lparr>selectedCategory := cat\<rparr>)))"

definition setSelectedType ::
  "(string \<Rightarrow> 'k::linorder) \<Rightarrow> (string \<Rightarrow> string) \<Rightarrow> string \<Rightarrow> page \<Rightarrow> page" where
  "setSelectedType collate toLowerCase t st =
     (if t = selectedType st then st
      else applyFiltersEffect collate toLowerCase (st\<lparr>selectedType := t\<rparr>))"

definition setPriceRange ::
  "(string \<Rightarrow> 'k::linorder) \<Rightarrow> (string \<Rightarrow> string) \<Rightarrow> rat \<times> rat \<Rightarrow> page \<Rightarrow> page" where
  "setPriceRange collate toLowerCase r st = applyFiltersEffect collate toLowerCase (st\<lparr>priceRange := r\<rparr>)"

definition setSortBy ::
  "(string \<Rightarrow> 'k::linorder) \<Rightarrow> (string \<Rightarrow> string) \<Rightarrow> string \<Rightarrow> page \<Rightarrow> page" where
  "setSortBy collate toLowerCase key st =
     (if key = sortBy st then st
      else applyFiltersEffect collate toLowerCase (st\<lparr>sortBy := key\<rparr>))"

definition clearFilters ::
  "(string \<Rightarrow> 'k::linorder) \<Rightarrow> (string \<Rightarrow> string) \<Rightarrow> page \<Rightarrow> page" where
  "clearFilters collate toLowerCase st =
     (let st' = st\<lparr>searchQuery := [], selectedCategory := [], selectedType := [],
                   priceRange := (0, 1000), sortBy := ''date''\<rparr>;
          st'' = applyFiltersEffect collate toLowerCase st'
      in if searchQuery st \<noteq> [] \<or> selectedCategory st \<noteq> [] then updateUrlEffect st'' else st'')"

section \<open>The modal's mode\<close>

record modalProps =
  isOpen :: bool
  defaultMode :: "string option"

text \<open>The parameter default \<^verbatim>\<open>defaultMode = 'login'\<close>.\<close>

definition defaultModeOf :: "modalProps \<Rightarrow> string" where
  "defaultModeOf props = (case defaultMode props of None \<Rightarrow> ''login'' | Some m \<Rightarrow> m)"

text \<open>
  The first \<^verbatim>\<open>AuthModal\<close>: the \<^verbatim>\<open>mode\<close> cell and the dependencies
  \<^verbatim>\<open>[defaultMode, isOpen]\<close> its effect last ran with. A render with other dependencies
  runs the effect, which sets the mode.
\<close>

record modal =
  mode :: string
  effectDeps :: "string \<times> bool"

definition mountModal :: "modalProps \<Rightarrow> modal" where
  "mountModal props =
     \<lparr>mode = defaultModeOf props, effectDeps = (defaultModeOf props, isOpen props)\<rparr>"

definition renderModal :: "modalProps \<Rightarrow> modal \<Rightarrow> modal" where
  "renderModal props st =
     (if (defaultModeOf props, isOpen props) \<noteq> effectDeps st
      then st\<lparr>mode := defaultModeOf props, effectDeps := (defaultModeOf props, isOpen props)\<rparr>
      else st)"

definition switchToLogin :: "modal \<Rightarrow> modal" where
  "switchToLogin st = st\<lparr>mode := ''login''\<rparr>"

definition switchToSignup :: "modal \<Rightarrow> modal" where
  "switchToSignup st = st\<lparr>mode := ''signup''\<rparr>"

text \<open>
  The second \<^verbatim>\<open>AuthModal\<close> has the \<^verbatim>\<open>mode\<close> cell only: \<^verbatim>\<open>useState(defaultMode)\<close>
  reads the prop when the modal mounts, and no later render writes the cell.
\<close>

definition mountModalNoSync :: "modalProps \<Rightarrow> string" where
  "mountModalNoSync props = defaultModeOf props"

definition renderModalNoSync :: "modalProps \<Rightarrow> string \<Rightarrow> string" where
  "renderModalNoSync props m = m"

section \<open>The example events\<close>

definition jazzNight :: event where
  "jazzNight =
     \<lparr>eventId = ''1'', title = ''Jazz Night'', description = [], location = [],
      category = [], date = 1714521600000, price = 20, isOnline = False,
      attendees = Some 50, tags = None\<rparr>"

definition artExpo :: event where
  "artExpo =
     \<lparr>eventId = ''2'', title = ''Art Expo'', description = [], location = [],
      category = [], date = 1711929600000, price = 0, isOnline = False,
      attendees = Some 200, tags = None\<rparr>"

text \<open>The criteria the page starts with when the URL carries no parameter.\<close>

definition defaultCriteria :: criteria where
  "defaultCriteria =
     \<lparr>searchQuery = [], selectedCategory = [], selectedType = [],
      priceRange = (0, 1000), sortBy = ''date''\<rparr>"

section \<open>Facts about the host operations\<close>

lemma stringIncludes_sublist: "stringIncludes s q \<longleftrightarrow> sublist q s"
  by (induction s) (simp_all add: sublist_Cons_right)

lemma matchesSearch_textMatch: "matchesSearch toLowerCase (toLowerCase q) e \<longleftrightarrow> textMatch toLowerCase q e"
  by (cases "tags e") (simp_all add: matchesSearch_def textMatch_def stringIncludes_sublist list_ex_iff)

lemma mset_insertBy: "mset (insertBy cmp x ys) = add_mset x (mset ys)"
  by (induction ys) auto

lemma mset_arraySort: "mset (arraySort cmp xs) = mset xs"
  by (induction xs) (auto simp: arraySort_def mset_insertBy)

lemma insertBy_insort_key:
  assumes "\<And>a b. cmp a b \<le> 0 \<longleftrightarrow> k a \<le> k b"
  shows "insertBy cmp x ys = insort_key k x ys"
  by (induction ys) (auto simp: assms)

lemma arraySort_sort_key:
  assumes "\<And>a b. cmp a b \<le> 0 \<longleftrightarrow> k a \<le> k b"
  shows "arraySort cmp xs = sort_key k xs"
proof -
  have "insertBy cmp = insort_key k"
    using insertBy_insort_key [of cmp k, OF assms] by (intro ext)
  then show ?thesis
    by (simp add: arraySort_def sort_key_def)
qed

lemma arraySort_no_order:
  assumes "\<And>a b. cmp a b \<le> 0"
  shows "arraySort cmp xs = xs"
proof (induction xs)
  case Nil
  show ?case by (simp add: arraySort_def)
next
  case (Cons x xs)
  have "insertBy cmp x xs = x # xs"
    by (cases xs) (simp_all add: assms)
  with Cons show ?case by (simp add: arraySort_def)
qed

lemma stablySorted_sort_key: "stablySorted (\<lambda>a b. k a \<le> k b) xs (sort_key k xs)"
proof -
  have "filter (\<lambda>y. k x \<le> k y \<and> k y \<le> k x) zs = filter (\<lambda>y. k y = k x) zs"
    for x and zs :: "'a list"
    by (rule filter_cong) auto
  moreover have "sorted_wrt (\<lambda>a b. k a \<le> k b) (sort_key k xs)"
    using sorted_sort_key [of k xs] by (simp only: sorted_map)
  ultimately show ?thesis
    by (simp add: stablySorted_def sort_key_stable)
qed

lemma stablySorted_sort_key_desc:
  fixes k :: "'a \<Rightarrow> 'b::linordered_idom"
  shows "stablySorted (\<lambda>a b. k a \<ge> k b) xs (sort_key (\<lambda>e. - k e) xs)"
  using stablySorted_sort_key [of "\<lambda>e. - k e" xs] by simp

section \<open>The sort step under each key\<close>

lemma sortEvents_date:
  "sortBy c = ''date'' \<Longrightarrow> sortEvents collate c xs = sort_key date xs"
  unfolding sortEvents_def
  by (rule arraySort_sort_key) (simp add: sortComparator_def)

lemma sortEvents_price_low:
  "sortBy c = ''price-low'' \<Longrightarrow> sortEvents collate c xs = sort_key price xs"
  unfolding sortEvents_def
  by (rule arraySort_sort_key) (simp add: sortComparator_def)

lemma sortEvents_price_high:
  "sortBy c = ''price-high'' \<Longrightarrow> sortEvents collate c xs = sort_key (\<lambda>e. - price e) xs"
  unfolding sortEvents_def
  by (rule arraySort_sort_key) (simp add: sortComparator_def)

lemma sortEvents_popularity:
  "sortBy c = ''popularity'' \<Longrightarrow> sortEvents collate c xs = sort_key (\<lambda>e. - attendeesOr0 e) xs"
  unfolding sortEvents_def
  by (rule arraySort_sort_key) (simp add: sortComparator_def)

lemma sortEvents_name:
  "sortBy c = ''name'' \<Longrightarrow> sortEvents collate c xs = sort_key (\<lambda>e. collate (title e)) xs"
  unfolding sortEvents_def
  by (rule arraySort_sort_key) (auto simp: sortComparator_def localeCompare_def)

lemma sortEvents_default:
  "sortBy c \<notin> {''date'', ''price-low'', ''price-high'', ''popularity'', ''name''}
     \<Longrightarrow> sortEvents collate c xs = xs"
  unfolding sortEvents_def
  by (rule arraySort_no_order) (simp add: sortComparator_def)

lemma mset_sortEvents: "mset (sortEvents collate c xs) = mset xs"
  by (simp add: sortEvents_def mset_arraySort)

section \<open>The filter steps as one filter\<close>

lemma applyStep_filter: "applyStep toLowerCase c s xs = filter (stepPasses toLowerCase c s) xs"
proof (cases s)
  case SearchStep
  then show ?thesis by (auto simp: searchFilter_def intro!: filter_cong)
next
  case CategoryStep
  then show ?thesis by (auto simp: categoryFilter_def intro!: filter_cong)
next
  case TypeStep
  then show ?thesis by (auto simp: typeFilter_def intro!: filter_cong)
next
  case PriceStep
  then show ?thesis by (auto simp: priceFilter_def intro!: filter_cong)
qed

lemma applySteps_filter:
  "applySteps toLowerCase c steps xs = filter (\<lambda>e. \<forall>s \<in> set steps. stepPasses toLowerCase c s e) xs"
proof (induction steps arbitrary: xs)
  case Nil
  show ?case by (simp add: applySteps_def)
next
  case (Cons s steps)
  have "applySteps toLowerCase c (s # steps) xs = applySteps toLowerCase c steps (applyStep toLowerCase c s xs)"
    by (simp add: applySteps_def)
  also have "\<dots> = filter (\<lambda>e. \<forall>s' \<in> set steps. stepPasses toLowerCase c s' e) (filter (stepPasses toLowerCase c s) xs)"
    by (simp only: Cons.IH applyStep_filter)
  also have "\<dots> = filter (\<lambda>e. \<forall>s' \<in> set (s # steps). stepPasses toLowerCase c s' e) xs"
    by (simp add: conj_commute)
  finally show ?case .
qed

lemma derive_applySteps:
  "derive collate toLowerCase c xs =
     sortEvents collate c (applySteps toLowerCase c [SearchStep, CategoryStep, TypeStep, PriceStep] xs)"
  by (simp add: derive_def applySteps_def)

lemma sorted_filter_idem:
  assumes "\<And>ys. S ys = sort_key k ys"
  shows "S (filter P (S (filter P xs))) = S (filter P xs)"
proof -
  have "sort_key k (filter P (sort_key k (filter P xs))) = sort_key k (sort_key k (filter P xs))"
    by (simp add: filter_sort)
  also have "\<dots> = sort_key k (filter P xs)"
    by (rule sort_key_id_if_sorted) (rule sorted_sort_key)
  finally show ?thesis by (simp add: assms)
qed

section \<open>No filter selected\<close>

text \<open>
  C1: with an empty text query, an empty category, an empty type and a price range that
  holds the price of every event, the derived sequence is the events themselves, each as
  often as it occurs, reordered by the chosen sort key and by nothing else: it is the
  events stably sorted by the key of \<open>sortBy\<close> (ascending date, ascending price,
  descending price, descending attendee count, collation order of the titles), and it is
  the events in their own order when \<open>sortBy\<close> is none of the five keys.
\<close>

theorem derive_no_filter:
  assumes "searchQuery c = []" and "selectedCategory c = []" and "selectedType c = []"
    and "\<forall>e \<in> set evs. fst (priceRange c) \<le> price e \<and> price e \<le> snd (priceRange c)"
  shows "derive collate toLowerCase c evs = sortEvents collate c evs
     \<and> mset (derive collate toLowerCase c evs) = mset evs
     \<and> set (derive collate toLowerCase c evs) = set evs
     \<and> (sortBy c = ''date'' \<longrightarrow>
          stablySorted (\<lambda>a b. date a \<le> date b) evs (derive collate toLowerCase c evs))
     \<and> (sortBy c = ''price-low'' \<longrightarrow>
          stablySorted (\<lambda>a b. price a \<le> price b) evs (derive collate toLowerCase c evs))
     \<and> (sortBy c = ''price-high'' \<longrightarrow>
          stablySorted (\<lambda>a b. price a \<ge> price b) evs (derive collate toLowerCase c evs))
     \<and> (sortBy c = ''popularity'' \<longrightarrow>
          stablySorted (\<lambda>a b. attendeesOr0 a \<ge> attendeesOr0 b) evs
            (derive collate toLowerCase c evs))
     \<and> (sortBy c = ''name'' \<longrightarrow>
          stablySorted (\<lambda>a b. collate (title a) \<le> collate (title b)) evs
            (derive collate toLowerCase c evs))
     \<and> (sortBy c \<notin> {''date'', ''price-low'', ''price-high'', ''popularity'', ''name''} \<longrightarrow>
          derive collate toLowerCase c evs = evs)"
proof -
  have "priceFilter c evs = evs"
    using assms(4) by (simp add: priceFilter_def)
  then have d: "derive collate toLowerCase c evs = sortEvents collate c evs"
    using assms(1-3) by (simp add: derive_def searchFilter_def categoryFilter_def typeFilter_def)
  have m: "mset (derive collate toLowerCase c evs) = mset evs"
    by (simp only: d mset_sortEvents)
  have s: "set (derive collate toLowerCase c evs) = set evs"
    using m by (rule mset_eq_setD)
  have k1: "sortBy c = ''date'' \<longrightarrow>
      stablySorted (\<lambda>a b. date a \<le> date b) evs (derive collate toLowerCase c evs)"
    by (simp add: d sortEvents_date stablySorted_sort_key)
  have k2: "sortBy c = ''price-low'' \<longrightarrow>
      stablySorted (\<lambda>a b. price a \<le> price b) evs (derive collate toLowerCase c evs)"
    by (simp add: d sortEvents_price_low stablySorted_sort_key)
  have k3: "sortBy c = ''price-high'' \<longrightarrow>
      stablySorted (\<lambda>a b. price a \<ge> price b) evs (derive collate toLowerCase c evs)"
    by (simp add: d sortEvents_price_high stablySorted_sort_key_desc)
  have k4: "sortBy c = ''popularity'' \<longrightarrow>
      stablySorted (\<lambda>a b. attendeesOr0 a \<ge> attendeesOr0 b) evs (derive collate toLowerCase c evs)"
    by (simp add: d sortEvents_popularity stablySorted_sort_key_desc)
  have k5: "sortBy c = ''name'' \<longrightarrow>
      stablySorted (\<lambda>a b. collate (title a) \<le> collate (title b)) evs
        (derive collate toLowerCase c evs)"
    by (simp add: d sortEvents_name stablySorted_sort_key)
  have k6: "sortBy c \<notin> {''date'', ''price-low'', ''price-high'', ''popularity'', ''name''} \<longrightarrow>
      derive collate toLowerCase c evs = evs"
    by (simp only: d) (simp add: sortEvents_default)
  from d m s k1 k2 k3 k4 k5 k6 show ?thesis
    by blast
qed

theorem derive_no_filter_witness:
  "searchQuery (defaultCriteria\<lparr>sortBy := ''price-low''\<rparr>) = []
   \<and> selectedCategory (defaultCriteria\<lparr>sortBy := ''price-low''\<rparr>) = []
   \<and> selectedType (defaultCriteria\<lparr>sortBy := ''price-low''\<rparr>) = []
   \<and> fst (priceRange (defaultCriteria\<lparr>sortBy := ''price-low''\<rparr>)) \<le> price jazzNight
   \<and> price jazzNight \<le> snd (priceRange (defaultCriteria\<lparr>sortBy := ''price-low''\<rparr>))
   \<and> fst (priceRange (defaultCriteria\<lparr>sortBy := ''price-low''\<rparr>)) \<le> price artExpo
   \<and> price artExpo \<le> snd (priceRange (defaultCriteria\<lparr>sortBy := ''price-low''\<rparr>))
   \<and> sortBy (defaultCriteria\<lparr>sortBy := ''price-low''\<rparr>) = ''price-low''
   \<and> derive (\<lambda>s. s) asciiLowerCase (defaultCriteria\<lparr>sortBy := ''price-low''\<rparr>)
        [jazzNight, artExpo] = [artExpo, jazzNight]
   \<and> set [artExpo, jazzNight] = set [jazzNight, artExpo]
   \<and> stablySorted (\<lambda>a b. price a \<le> price b) [jazzNight, artExpo] [artExpo, jazzNight]
   \<and> sortBy (defaultCriteria\<lparr>sortBy := ''rating''\<rparr>)
        \<notin> {''date'', ''price-low'', ''price-high'', ''popularity'', ''name''}
   \<and> derive (\<lambda>s. s) asciiLowerCase (defaultCriteria\<lparr>sortBy := ''rating''\<rparr>)
        [jazzNight, artExpo] = [jazzNight, artExpo]"
proof -
  let ?id = "\<lambda>s::string. s"
  let ?c = "defaultCriteria\<lparr>sortBy := ''price-low''\<rparr>"
  let ?u = "defaultCriteria\<lparr>sortBy := ''rating''\<rparr>"
  have h1: "searchQuery ?c = []" and h2: "selectedCategory ?c = []" and h3: "selectedType ?c = []"
    by (simp_all add: defaultCriteria_def)
  have h4: "\<forall>e \<in> set [jazzNight, artExpo].
      fst (priceRange ?c) \<le> price e \<and> price e \<le> snd (priceRange ?c)"
    by (simp add: defaultCriteria_def jazzNight_def artExpo_def)
  have b: "fst (priceRange ?c) \<le> price jazzNight" "price jazzNight \<le> snd (priceRange ?c)"
    "fst (priceRange ?c) \<le> price artExpo" "price artExpo \<le> snd (priceRange ?c)"
    using h4 by simp_all
  have k: "sortBy ?c = ''price-low''"
    by simp
  have r: "derive ?id asciiLowerCase ?c [jazzNight, artExpo] = [artExpo, jazzNight]"
    by code_simp
  note t = derive_no_filter [OF h1 h2 h3 h4, where collate = ?id and toLowerCase = asciiLowerCase]
  from t have "set (derive ?id asciiLowerCase ?c [jazzNight, artExpo]) = set [jazzNight, artExpo]"
    by blast
  then have s: "set [artExpo, jazzNight] = set [jazzNight, artExpo]"
    by (simp only: r)
  from t k have "stablySorted (\<lambda>a b. price a \<le> price b) [jazzNight, artExpo]
      (derive ?id asciiLowerCase ?c [jazzNight, artExpo])"
    by blast
  then have o: "stablySorted (\<lambda>a b. price a \<le> price b) [jazzNight, artExpo] [artExpo, jazzNight]"
    by (simp only: r)
  have g1: "searchQuery ?u = []" and g2: "selectedCategory ?u = []" and g3: "selectedType ?u = []"
    by (simp_all add: defaultCriteria_def)
  have g4: "\<forall>e \<in> set [jazzNight, artExpo].
      fst (priceRange ?u) \<le> price e \<and> price e \<le> snd (priceRange ?u)"
    by (simp add: defaultCriteria_def jazzNight_def artExpo_def)
  have ku: "sortBy ?u \<notin> {''date'', ''price-low'', ''price-high'', ''popularity'', ''name''}"
    by simp
  from derive_no_filter [OF g1 g2 g3 g4, where collate = ?id and toLowerCase = asciiLowerCase] ku
  have u: "derive ?id asciiLowerCase ?u [jazzNight, artExpo] = [jazzNight, artExpo]"
    by blast
  from h1 h2 h3 b k r s o ku u show ?thesis
    by blast
qed

section \<open>The text filter\<close>

text \<open>
  C2: the text filter keeps a record iff the query is empty or the lowercased query is a
  substring of the lowercased title, description or location or of some lowercased tag,
  and keeps the records in their order, whatever the host's lowercasing does to each
  character; with the query "jazz", the two example events (ASCII strings) derive to
  Jazz Night alone.
\<close>

theorem searchFilter_textMatch:
  "searchFilter toLowerCase c evs = filter (\<lambda>e. searchQuery c = [] \<or> textMatch toLowerCase (searchQuery c) e) evs
   \<and> (e \<in> set (searchFilter toLowerCase c evs)
        \<longleftrightarrow> e \<in> set evs \<and> (searchQuery c = [] \<or> textMatch toLowerCase (searchQuery c) e))
   \<and> derive (\<lambda>s. s) asciiLowerCase (defaultCriteria\<lparr>searchQuery := ''jazz''\<rparr>) [jazzNight, artExpo] = [jazzNight]"
proof -
  have f: "searchFilter toLowerCase c evs
      = filter (\<lambda>e. searchQuery c = [] \<or> textMatch toLowerCase (searchQuery c) e) evs"
    by (auto simp: searchFilter_def matchesSearch_textMatch intro!: filter_cong)
  have x: "derive (\<lambda>s. s) asciiLowerCase (defaultCriteria\<lparr>searchQuery := ''jazz''\<rparr>) [jazzNight, artExpo]
      = [jazzNight]"
    by code_simp
  from f x show ?thesis by simp
qed

theorem searchFilter_textMatch_witness:
  "textMatch asciiLowerCase ''Jazz'' jazzNight \<and> \<not> textMatch asciiLowerCase ''Jazz'' artExpo
   \<and> searchFilter asciiLowerCase (defaultCriteria\<lparr>searchQuery := ''Jazz''\<rparr>) [jazzNight, artExpo] = [jazzNight]"
proof -
  let ?c = "defaultCriteria\<lparr>searchQuery := ''Jazz''\<rparr>"
  have r: "searchFilter asciiLowerCase ?c [jazzNight, artExpo] = [jazzNight]"
    by code_simp
  have q: "searchQuery ?c = ''Jazz''"
    by simp
  have ne: "artExpo \<noteq> jazzNight"
    by (simp add: artExpo_def jazzNight_def)
  have "jazzNight \<in> set (searchFilter asciiLowerCase ?c [jazzNight, artExpo])
      \<longleftrightarrow> jazzNight \<in> set [jazzNight, artExpo] \<and> (searchQuery ?c = [] \<or> textMatch asciiLowerCase (searchQuery ?c) jazzNight)"
    using searchFilter_textMatch [where c = ?c and evs = "[jazzNight, artExpo]" and e = jazzNight] by blast
  then have a: "textMatch asciiLowerCase ''Jazz'' jazzNight"
    by (simp add: r q)
  have "artExpo \<in> set (searchFilter asciiLowerCase ?c [jazzNight, artExpo])
      \<longleftrightarrow> artExpo \<in> set [jazzNight, artExpo] \<and> (searchQuery ?c = [] \<or> textMatch asciiLowerCase (searchQuery ?c) artExpo)"
    using searchFilter_textMatch [where c = ?c and evs = "[jazzNight, artExpo]" and e = artExpo] by blast
  then have b: "\<not> textMatch asciiLowerCase ''Jazz'' artExpo"
    by (simp add: r q ne)
  from a b r show ?thesis by simp
qed

section \<open>The sort step\<close>

text \<open>
  C3: the sort step is a stable sort by the key of \<open>sortBy\<close>: ascending date for "date",
  ascending price for "price-low", descending price for "price-high", descending attendee
  count (an absent count is 0) for "popularity", the collation order of the titles for
  "name". Records with equal keys keep their relative order. The two example events
  sorted by "price-low" come out as Art Expo, Jazz Night.
\<close>

theorem sortEvents_stable:
  "(sortBy c = ''date'' \<longrightarrow>
      stablySorted (\<lambda>a b. date a \<le> date b) evs (sortEvents collate c evs))
   \<and> (sortBy c = ''price-low'' \<longrightarrow>
      stablySorted (\<lambda>a b. price a \<le> price b) evs (sortEvents collate c evs))
   \<and> (sortBy c = ''price-high'' \<longrightarrow>
      stablySorted (\<lambda>a b. price a \<ge> price b) evs (sortEvents collate c evs))
   \<and> (sortBy c = ''popularity'' \<longrightarrow>
      stablySorted (\<lambda>a b. attendeesOr0 a \<ge> attendeesOr0 b) evs (sortEvents collate c evs))
   \<and> (sortBy c = ''name'' \<longrightarrow>
      stablySorted (\<lambda>a b. collate (title a) \<le> collate (title b)) evs
        (sortEvents collate c evs))
   \<and> derive (\<lambda>s. s) asciiLowerCase (defaultCriteria\<lparr>sortBy := ''price-low''\<rparr>) [jazzNight, artExpo]
       = [artExpo, jazzNight]"
proof -
  have "derive (\<lambda>s. s) asciiLowerCase (defaultCriteria\<lparr>sortBy := ''price-low''\<rparr>) [jazzNight, artExpo]
      = [artExpo, jazzNight]"
    by code_simp
  then show ?thesis
    by (simp add: sortEvents_date sortEvents_price_low sortEvents_price_high
        sortEvents_popularity sortEvents_name stablySorted_sort_key stablySorted_sort_key_desc)
qed

theorem sortEvents_stable_witness:
  "stablySorted (\<lambda>a b. date a \<le> date b) [jazzNight, artExpo] [artExpo, jazzNight]
   \<and> stablySorted (\<lambda>a b. price a \<le> price b)
        [jazzNight, artExpo, jazzNight\<lparr>price := 0\<rparr>] [artExpo, jazzNight\<lparr>price := 0\<rparr>, jazzNight]
   \<and> stablySorted (\<lambda>a b. price a \<ge> price b)
        [artExpo, jazzNight, artExpo\<lparr>price := 20\<rparr>] [jazzNight, artExpo\<lparr>price := 20\<rparr>, artExpo]
   \<and> stablySorted (\<lambda>a b. attendeesOr0 a \<ge> attendeesOr0 b)
        [jazzNight\<lparr>attendees := None\<rparr>, jazzNight, artExpo]
        [artExpo, jazzNight, jazzNight\<lparr>attendees := None\<rparr>]
   \<and> stablySorted (\<lambda>a b. title a \<le> title b) [jazzNight, artExpo] [artExpo, jazzNight]"
proof -
  let ?id = "\<lambda>s::string. s"
  let ?d = "defaultCriteria\<lparr>sortBy := ''date''\<rparr>"
  let ?l = "defaultCriteria\<lparr>sortBy := ''price-low''\<rparr>"
  let ?h = "defaultCriteria\<lparr>sortBy := ''price-high''\<rparr>"
  let ?p = "defaultCriteria\<lparr>sortBy := ''popularity''\<rparr>"
  let ?n = "defaultCriteria\<lparr>sortBy := ''name''\<rparr>"
  have ed: "sortEvents ?id ?d [jazzNight, artExpo] = [artExpo, jazzNight]"
    by code_simp
  have el: "sortEvents ?id ?l [jazzNight, artExpo, jazzNight\<lparr>price := 0\<rparr>]
      = [artExpo, jazzNight\<lparr>price := 0\<rparr>, jazzNight]"
    by code_simp
  have eh: "sortEvents ?id ?h [artExpo, jazzNight, artExpo\<lparr>price := 20\<rparr>]
      = [jazzNight, artExpo\<lparr>price := 20\<rparr>, artExpo]"
    by code_simp
  have ep: "sortEvents ?id ?p [jazzNight\<lparr>attendees := None\<rparr>, jazzNight, artExpo]
      = [artExpo, jazzNight, jazzNight\<lparr>attendees := None\<rparr>]"
    by code_simp
  have en: "sortEvents ?id ?n [jazzNight, artExpo] = [artExpo, jazzNight]"
    by code_simp
  have "stablySorted (\<lambda>a b. date a \<le> date b) [jazzNight, artExpo]
      (sortEvents ?id ?d [jazzNight, artExpo])"
    using sortEvents_stable [where c = ?d and evs = "[jazzNight, artExpo]" and collate = ?id]
    by simp
  then have d: "stablySorted (\<lambda>a b. date a \<le> date b) [jazzNight, artExpo] [artExpo, jazzNight]"
    by (simp only: ed)
  have "stablySorted (\<lambda>a b. price a \<le> price b) [jazzNight, artExpo, jazzNight\<lparr>price := 0\<rparr>]
      (sortEvents ?id ?l [jazzNight, artExpo, jazzNight\<lparr>price := 0\<rparr>])"
    using sortEvents_stable [where c = ?l and evs = "[jazzNight, artExpo, jazzNight\<lparr>price := 0\<rparr>]"
        and collate = ?id]
    by simp
  then have l: "stablySorted (\<lambda>a b. price a \<le> price b)
      [jazzNight, artExpo, jazzNight\<lparr>price := 0\<rparr>] [artExpo, jazzNight\<lparr>price := 0\<rparr>, jazzNight]"
    by (simp only: el)
  have "stablySorted (\<lambda>a b. price a \<ge> price b) [artExpo, jazzNight, artExpo\<lparr>price := 20\<rparr>]
      (sortEvents ?id ?h [artExpo, jazzNight, artExpo\<lparr>price := 20\<rparr>])"
    using sortEvents_stable [where c = ?h and evs = "[artExpo, jazzNight, artExpo\<lparr>price := 20\<rparr>]"
        and collate = ?id]
    by simp
  then have h: "stablySorted (\<lambda>a b. price a \<ge> price b)
      [artExpo, jazzNight, artExpo\<lparr>price := 20\<rparr>] [jazzNight, artExpo\<lparr>price := 20\<rparr>, artExpo]"
    by (simp only: eh)
  have "stablySorted (\<lambda>a b. attendeesOr0 a \<ge> attendeesOr0 b)
      [jazzNight\<lparr>attendees := None\<rparr>, jazzNight, artExpo]
      (sortEvents ?id ?p [jazzNight\<lparr>attendees := None\<rparr>, jazzNight, artExpo])"
    using sortEvents_stable [where c = ?p
        and evs = "[jazzNight\<lparr>attendees := None\<rparr>, jazzNight, artExpo]" and collate = ?id]
    by simp
  then have p: "stablySorted (\<lambda>a b. attendeesOr0 a \<ge> attendeesOr0 b)
      [jazzNight\<lparr>attendees := None\<rparr>, jazzNight, artExpo]
      [artExpo, jazzNight, jazzNight\<lparr>attendees := None\<rparr>]"
    by (simp only: ep)
  have "stablySorted (\<lambda>a b. title a \<le> title b) [jazzNight, artExpo]
      (sortEvents ?id ?n [jazzNight, artExpo])"
    using sortEvents_stable [where c = ?n and evs = "[jazzNight, artExpo]" and collate = ?id]
    by simp
  then have n: "stablySorted (\<lambda>a b. title a \<le> title b) [jazzNight, artExpo] [artExpo, jazzNight]"
    by (simp only: en)
  from d l h p n show ?thesis by blast
qed

section \<open>The price filter\<close>

text \<open>
  C4: a record passes the price filter iff its price lies in the range, both bounds
  included; a record whose price is the lower or the upper bound passes. The records
  that pass keep their order.
\<close>

theorem priceFilter_inclusive:
  "priceFilter (c\<lparr>priceRange := (lo, hi)\<rparr>) evs = filter (\<lambda>e. lo \<le> price e \<and> price e \<le> hi) evs
   \<and> (e \<in> set (priceFilter (c\<lparr>priceRange := (lo, hi)\<rparr>) evs)
        \<longleftrightarrow> e \<in> set evs \<and> lo \<le> price e \<and> price e \<le> hi)
   \<and> (e \<in> set evs \<and> lo \<le> hi \<and> (price e = lo \<or> price e = hi)
        \<longrightarrow> e \<in> set (priceFilter (c\<lparr>priceRange := (lo, hi)\<rparr>) evs))"
  by (auto simp: priceFilter_def)

theorem priceFilter_inclusive_witness:
  "jazzNight \<in> set [jazzNight, artExpo] \<and> (0::rat) \<le> 20
   \<and> price jazzNight = 20 \<and> price artExpo = 0
   \<and> jazzNight \<in> set (priceFilter (defaultCriteria\<lparr>priceRange := (0, 20)\<rparr>) [jazzNight, artExpo])
   \<and> artExpo \<in> set (priceFilter (defaultCriteria\<lparr>priceRange := (0, 20)\<rparr>) [jazzNight, artExpo])"
proof -
  have pj: "price jazzNight = 20" and pa: "price artExpo = 0"
    by (simp_all add: jazzNight_def artExpo_def)
  have j: "jazzNight \<in> set (priceFilter (defaultCriteria\<lparr>priceRange := (0, 20)\<rparr>) [jazzNight, artExpo])"
    using priceFilter_inclusive [where c = defaultCriteria and lo = 0 and hi = 20
        and evs = "[jazzNight, artExpo]" and e = jazzNight] pj
    by simp
  have a: "artExpo \<in> set (priceFilter (defaultCriteria\<lparr>priceRange := (0, 20)\<rparr>) [jazzNight, artExpo])"
    using priceFilter_inclusive [where c = defaultCriteria and lo = 0 and hi = 20
        and evs = "[jazzNight, artExpo]" and e = artExpo] pa
    by simp
  from pj pa j a show ?thesis by simp
qed

section \<open>The order of the filters\<close>

text \<open>
  C5: the four filter steps applied in any order keep the same records (in the same
  order) as the effect's own order, so the derivation is the sort step after the
  filters in any order.
\<close>

theorem filter_order_irrelevant:
  assumes "mset steps = mset [SearchStep, CategoryStep, TypeStep, PriceStep]"
  shows "applySteps toLowerCase c steps evs
       = priceFilter c (typeFilter c (categoryFilter c (searchFilter toLowerCase c evs)))
     \<and> set (applySteps toLowerCase c steps evs)
       = set (priceFilter c (typeFilter c (categoryFilter c (searchFilter toLowerCase c evs))))
     \<and> derive collate toLowerCase c evs = sortEvents collate c (applySteps toLowerCase c steps evs)"
proof -
  have "set steps = set [SearchStep, CategoryStep, TypeStep, PriceStep]"
    using assms by (rule mset_eq_setD)
  then have "applySteps toLowerCase c steps evs
      = applySteps toLowerCase c [SearchStep, CategoryStep, TypeStep, PriceStep] evs"
    by (simp only: applySteps_filter)
  moreover have "applySteps toLowerCase c [SearchStep, CategoryStep, TypeStep, PriceStep] evs
      = priceFilter c (typeFilter c (categoryFilter c (searchFilter toLowerCase c evs)))"
    by (simp add: applySteps_def)
  ultimately show ?thesis
    by (simp add: derive_def)
qed

theorem filter_order_irrelevant_witness:
  "mset [PriceStep, TypeStep, CategoryStep, SearchStep]
     = mset [SearchStep, CategoryStep, TypeStep, PriceStep]
   \<and> applySteps asciiLowerCase (defaultCriteria\<lparr>searchQuery := ''jazz''\<rparr>)
        [PriceStep, TypeStep, CategoryStep, SearchStep] [jazzNight, artExpo] = [jazzNight]
   \<and> priceFilter (defaultCriteria\<lparr>searchQuery := ''jazz''\<rparr>)
        (typeFilter (defaultCriteria\<lparr>searchQuery := ''jazz''\<rparr>)
          (categoryFilter (defaultCriteria\<lparr>searchQuery := ''jazz''\<rparr>)
            (searchFilter asciiLowerCase (defaultCriteria\<lparr>searchQuery := ''jazz''\<rparr>) [jazzNight, artExpo])))
       = [jazzNight]"
proof -
  let ?c = "defaultCriteria\<lparr>searchQuery := ''jazz''\<rparr>"
  have m: "mset [PriceStep, TypeStep, CategoryStep, SearchStep]
      = mset [SearchStep, CategoryStep, TypeStep, PriceStep]"
    by simp
  have r: "applySteps asciiLowerCase ?c [PriceStep, TypeStep, CategoryStep, SearchStep] [jazzNight, artExpo]
      = [jazzNight]"
    by code_simp
  from filter_order_irrelevant [OF m, where c = ?c and evs = "[jazzNight, artExpo]"
      and collate = "\<lambda>s::string. s"
        and toLowerCase = asciiLowerCase] m r
  show ?thesis by simp
qed

section \<open>Idempotence\<close>

text \<open>
  C6: deriving from a derived sequence with the same criteria gives that sequence again,
  in the same order.
\<close>

theorem derive_idempotent:
  "derive collate toLowerCase c (derive collate toLowerCase c evs) = derive collate toLowerCase c evs"
proof -
  let ?P = "\<lambda>e. \<forall>s \<in> set [SearchStep, CategoryStep, TypeStep, PriceStep]. stepPasses toLowerCase c s e"
  have d: "derive collate toLowerCase c xs = sortEvents collate c (filter ?P xs)" for xs
    by (simp only: derive_applySteps applySteps_filter)
  have "sortEvents collate c (filter ?P (sortEvents collate c (filter ?P evs)))
      = sortEvents collate c (filter ?P evs)"
  proof -
    consider "sortBy c = ''date''" | "sortBy c = ''price-low''" | "sortBy c = ''price-high''"
      | "sortBy c = ''popularity''" | "sortBy c = ''name''"
      | "sortBy c \<notin> {''date'', ''price-low'', ''price-high'', ''popularity'', ''name''}"
      by blast
    then show ?thesis
    proof cases
      case 1
      then show ?thesis by (intro sorted_filter_idem [of _ date]) (rule sortEvents_date)
    next
      case 2
      then show ?thesis by (intro sorted_filter_idem [of _ price]) (rule sortEvents_price_low)
    next
      case 3
      then show ?thesis
        by (intro sorted_filter_idem [of _ "\<lambda>e. - price e"]) (rule sortEvents_price_high)
    next
      case 4
      then show ?thesis
        by (intro sorted_filter_idem [of _ "\<lambda>e. - attendeesOr0 e"]) (rule sortEvents_popularity)
    next
      case 5
      then show ?thesis
        by (intro sorted_filter_idem [of _ "\<lambda>e. collate (title e)"]) (rule sortEvents_name)
    next
      case 6
      then show ?thesis by (simp add: sortEvents_default)
    qed
  qed
  then show ?thesis by (simp only: d)
qed

section \<open>The modal's mode follows the default\<close>

lemma renderModal_deps: "effectDeps (renderModal props st) = (defaultModeOf props, isOpen props)"
  by (simp add: renderModal_def)

lemma renderModal_syncs:
  "defaultModeOf props \<noteq> fst (effectDeps st) \<Longrightarrow> mode (renderModal props st) = defaultModeOf props"
  by (cases "effectDeps st") (auto simp: renderModal_def)

lemma renderModal_syncs_example:
  "mode (renderModal \<lparr>isOpen = True, defaultMode = Some ''signup''\<rparr>
           (mountModal \<lparr>isOpen = True, defaultMode = Some ''login''\<rparr>)) = ''signup''"
  by (simp add: renderModal_def mountModal_def defaultModeOf_def)

text \<open>
  C7: when the default mode changes while the modal is open, the mode becomes the new
  default. The first modal does so (\<open>renderModal_syncs\<close>). The second modal, mounted open
  with the default "login" and rendered again, still open, with the default "signup",
  keeps the mode "login".
\<close>

theorem renderModalNoSync_keeps_mode:
  "renderModalNoSync \<lparr>isOpen = True, defaultMode = Some ''signup''\<rparr>
     (mountModalNoSync \<lparr>isOpen = True, defaultMode = Some ''login''\<rparr>) = ''login''
   \<and> defaultModeOf \<lparr>isOpen = True, defaultMode = Some ''signup''\<rparr> = ''signup''"
  by (simp add: renderModalNoSync_def mountModalNoSync_def defaultModeOf_def)

section \<open>Unrecognised criteria\<close>

lemma set_sortEvents: "set (sortEvents collate c xs) = set xs"
  by (rule mset_eq_setD) (rule mset_sortEvents)

text \<open>
  C8: a type that is neither "online" nor "offline" filters nothing, and a sort key that
  is none of the five reorders nothing; the derivation is a plain sequence in every case,
  the empty one included.
\<close>

theorem derive_unrecognised:
  "(selectedType c \<notin> {''online'', ''offline''} \<longrightarrow>
      typeFilter c evs = evs
      \<and> derive collate toLowerCase c evs
          = sortEvents collate c (priceFilter c (categoryFilter c (searchFilter toLowerCase c evs))))
   \<and> (sortBy c \<notin> {''date'', ''price-low'', ''price-high'', ''popularity'', ''name''} \<longrightarrow>
      sortEvents collate c evs = evs
      \<and> derive collate toLowerCase c evs
          = priceFilter c (typeFilter c (categoryFilter c (searchFilter toLowerCase c evs))))
   \<and> derive collate toLowerCase c [] = []
   \<and> derive (\<lambda>s. s) asciiLowerCase (defaultCriteria\<lparr>searchQuery := ''opera''\<rparr>) [jazzNight, artExpo] = []"
proof -
  have t: "typeFilter c xs = xs" if "selectedType c \<notin> {''online'', ''offline''}" for xs
    using that by (simp add: typeFilter_def)
  have e: "derive collate toLowerCase c [] = []"
    by (simp add: derive_def searchFilter_def categoryFilter_def typeFilter_def priceFilter_def
        sortEvents_def arraySort_def)
  have x: "derive (\<lambda>s. s) asciiLowerCase (defaultCriteria\<lparr>searchQuery := ''opera''\<rparr>) [jazzNight, artExpo] = []"
    by code_simp
  from t e x show ?thesis
    by (simp add: derive_def sortEvents_default)
qed

theorem derive_unrecognised_witness:
  "selectedType (defaultCriteria\<lparr>selectedType := ''hybrid''\<rparr>) \<notin> {''online'', ''offline''}
   \<and> typeFilter (defaultCriteria\<lparr>selectedType := ''hybrid''\<rparr>)
        [jazzNight\<lparr>isOnline := True\<rparr>, artExpo] = [jazzNight\<lparr>isOnline := True\<rparr>, artExpo]
   \<and> sortBy (defaultCriteria\<lparr>sortBy := ''rating''\<rparr>)
        \<notin> {''date'', ''price-low'', ''price-high'', ''popularity'', ''name''}
   \<and> sortEvents (\<lambda>s. s) (defaultCriteria\<lparr>sortBy := ''rating''\<rparr>) [jazzNight, artExpo]
        = [jazzNight, artExpo]
   \<and> derive (\<lambda>s. s) asciiLowerCase (defaultCriteria\<lparr>sortBy := ''rating''\<rparr>) [jazzNight, artExpo]
        = [jazzNight, artExpo]"
proof -
  let ?t = "defaultCriteria\<lparr>selectedType := ''hybrid''\<rparr>"
  let ?s = "defaultCriteria\<lparr>sortBy := ''rating''\<rparr>"
  have ht: "selectedType ?t \<notin> {''online'', ''offline''}"
    by simp
  have hs: "sortBy ?s \<notin> {''date'', ''price-low'', ''price-high'', ''popularity'', ''name''}"
    by simp
  have f: "priceFilter ?s (typeFilter ?s (categoryFilter ?s (searchFilter asciiLowerCase ?s [jazzNight, artExpo])))
      = [jazzNight, artExpo]"
    by code_simp
  have a: "typeFilter ?t [jazzNight\<lparr>isOnline := True\<rparr>, artExpo] = [jazzNight\<lparr>isOnline := True\<rparr>, artExpo]"
    using derive_unrecognised [where c = ?t and evs = "[jazzNight\<lparr>isOnline := True\<rparr>, artExpo]"
        and collate = "\<lambda>s::string. s"
        and toLowerCase = asciiLowerCase] ht
    by blast
  have b: "sortEvents (\<lambda>s. s) ?s [jazzNight, artExpo] = [jazzNight, artExpo]"
    and d: "derive (\<lambda>s. s) asciiLowerCase ?s [jazzNight, artExpo]
      = priceFilter ?s (typeFilter ?s (categoryFilter ?s (searchFilter asciiLowerCase ?s [jazzNight, artExpo])))"
    using derive_unrecognised [where c = ?s and evs = "[jazzNight, artExpo]"
        and collate = "\<lambda>s::string. s"
        and toLowerCase = asciiLowerCase] hs
    by blast+
  from ht hs a b d f show ?thesis by simp
qed

section \<open>The URL parameters\<close>

lemma params_get_buildParams_search:
  "params_get (buildParams c) ''search'' = (if searchQuery c = [] then None else Some (searchQuery c))"
  by (simp add: buildParams_def params_get_def)

lemma params_get_buildParams_category:
  "params_get (buildParams c) ''category''
     = (if selectedCategory c = [] then None else Some (selectedCategory c))"
  by (simp add: buildParams_def params_get_def)

lemma names_buildParams: "fst ` set (buildParams c) \<subseteq> {''search'', ''category''}"
  by (auto simp: buildParams_def Let_def)

lemma searchParams_setSearchQuery:
  "q \<noteq> searchQuery st \<Longrightarrow>
     searchParams (setSearchQuery collate toLowerCase q st) = buildParams (st\<lparr>searchQuery := q\<rparr>)"
  by (simp add: setSearchQuery_def updateUrlEffect_def applyFiltersEffect_def buildParams_def)

lemma searchParams_setSelectedCategory:
  "cat \<noteq> selectedCategory st \<Longrightarrow>
     searchParams (setSelectedCategory collate toLowerCase cat st) = buildParams (st\<lparr>selectedCategory := cat\<rparr>)"
  by (simp add: setSelectedCategory_def updateUrlEffect_def applyFiltersEffect_def buildParams_def)

text \<open>
  C9: after the text query or the category changes, the URL parameters are the rebuilt
  ones: \<open>search\<close> is there, with the query as its value, iff the query is not empty;
  \<open>category\<close> is there, with the category as its value, iff the category is not empty;
  and there is no other parameter.
\<close>

theorem url_params_follow_criteria:
  "(q \<noteq> searchQuery st \<longrightarrow>
      params_get (searchParams (setSearchQuery collate toLowerCase q st)) ''search''
        = (if q = [] then None else Some q)
      \<and> params_get (searchParams (setSearchQuery collate toLowerCase q st)) ''category''
        = (if selectedCategory st = [] then None else Some (selectedCategory st))
      \<and> set (map fst (searchParams (setSearchQuery collate toLowerCase q st))) \<subseteq> {''search'', ''category''})
   \<and> (cat \<noteq> selectedCategory st \<longrightarrow>
      params_get (searchParams (setSelectedCategory collate toLowerCase cat st)) ''search''
        = (if searchQuery st = [] then None else Some (searchQuery st))
      \<and> params_get (searchParams (setSelectedCategory collate toLowerCase cat st)) ''category''
        = (if cat = [] then None else Some cat)
      \<and> set (map fst (searchParams (setSelectedCategory collate toLowerCase cat st)))
        \<subseteq> {''search'', ''category''})"
  by (simp add: searchParams_setSearchQuery searchParams_setSelectedCategory
      params_get_buildParams_search params_get_buildParams_category names_buildParams)

theorem url_params_follow_criteria_witness:
  "''jazz'' \<noteq> searchQuery (mountPage (\<lambda>s. s) asciiLowerCase [])
   \<and> searchParams (setSearchQuery (\<lambda>s. s) asciiLowerCase ''jazz'' (mountPage (\<lambda>s. s) asciiLowerCase [])) = [(''search'', ''jazz'')]
   \<and> params_get (searchParams (setSearchQuery (\<lambda>s. s) asciiLowerCase ''jazz'' (mountPage (\<lambda>s. s) asciiLowerCase []))) ''search''
       = Some ''jazz''
   \<and> params_get (searchParams (setSearchQuery (\<lambda>s. s) asciiLowerCase ''jazz'' (mountPage (\<lambda>s. s) asciiLowerCase []))) ''category''
       = None
   \<and> ''Music'' \<noteq> selectedCategory (setSearchQuery (\<lambda>s. s) asciiLowerCase ''jazz'' (mountPage (\<lambda>s. s) asciiLowerCase []))
   \<and> params_get (searchParams (setSelectedCategory (\<lambda>s. s) asciiLowerCase ''Music''
        (setSearchQuery (\<lambda>s. s) asciiLowerCase ''jazz'' (mountPage (\<lambda>s. s) asciiLowerCase [])))) ''category'' = Some ''Music''
   \<and> params_get (searchParams (setSelectedCategory (\<lambda>s. s) asciiLowerCase ''Music''
        (setSearchQuery (\<lambda>s. s) asciiLowerCase ''jazz'' (mountPage (\<lambda>s. s) asciiLowerCase [])))) ''search'' = Some ''jazz''"
proof -
  let ?id = "\<lambda>s::string. s"
  let ?st0 = "mountPage ?id asciiLowerCase []"
  let ?st1 = "setSearchQuery ?id asciiLowerCase ''jazz'' ?st0"
  have q0: "searchQuery ?st0 = []" and c0: "selectedCategory ?st0 = []"
    by (simp_all add: mountPage_def updateUrlEffect_def applyFiltersEffect_def initialState_def
        params_get_def)
  have q1: "searchQuery ?st1 = ''jazz''" and c1: "selectedCategory ?st1 = []"
    by (simp_all add: setSearchQuery_def q0 c0 updateUrlEffect_def applyFiltersEffect_def)
  have p: "searchParams ?st1 = [(''search'', ''jazz'')]"
    by (simp add: searchParams_setSearchQuery q0 c0 buildParams_def)
  have h0: "''jazz'' \<noteq> searchQuery ?st0"
    by (simp add: q0)
  have h1: "''Music'' \<noteq> selectedCategory ?st1"
    by (simp add: c1)
  from url_params_follow_criteria [where q = "''jazz''" and st = ?st0 and collate = ?id
      and toLowerCase = asciiLowerCase
      and cat = "selectedCategory ?st0"] h0 c0
  have a: "params_get (searchParams ?st1) ''search'' = Some ''jazz''"
    and b: "params_get (searchParams ?st1) ''category'' = None"
    by simp_all
  from url_params_follow_criteria [where cat = "''Music''" and st = ?st1 and collate = ?id
      and toLowerCase = asciiLowerCase
      and q = "searchQuery ?st1"] h1 q1
  have c: "params_get (searchParams (setSelectedCategory ?id asciiLowerCase ''Music'' ?st1)) ''category''
      = Some ''Music''"
    and d: "params_get (searchParams (setSelectedCategory ?id asciiLowerCase ''Music'' ?st1)) ''search''
      = Some ''jazz''"
    by simp_all
  from h0 p a b h1 c d show ?thesis by blast
qed

section \<open>The price range the page starts with\<close>

lemma derive_in_priceRange:
  assumes "e \<in> set (derive collate toLowerCase c evs)"
  shows "fst (priceRange c) \<le> price e \<and> price e \<le> snd (priceRange c)"
  using assms by (simp add: derive_def set_sortEvents priceFilter_def)

lemma derive_excludes_above:
  assumes "priceRange c = (lo, hi)" and "hi < price e"
  shows "e \<notin> set (derive collate toLowerCase c evs)"
  using derive_in_priceRange [where e = e and collate = collate and c = c and evs = evs] assms by auto

text \<open>
  C10: the price range the page starts with, and the one that clearing the filters
  restores, is 0 to 1000; so an event that costs more than 1000 is in no sequence derived
  under the initial criteria, nor in the one shown once the events are loaded, nor in
  the one shown after the filters are cleared.
\<close>

theorem initial_priceRange_excludes:
  "priceRange (initialState sp) = (0, 1000)
   \<and> priceRange (clearFilters collate toLowerCase st) = (0, 1000)
   \<and> (1000 < price e \<longrightarrow>
        e \<notin> set (derive collate toLowerCase (initialState sp) evs)
        \<and> e \<notin> set (filteredEvents (setEvents collate toLowerCase evs (mountPage collate toLowerCase sp)))
        \<and> e \<notin> set (filteredEvents (clearFilters collate toLowerCase st)))"
proof -
  have i: "priceRange (initialState sp) = (0, 1000)"
    by (simp add: initialState_def)
  have c: "priceRange (clearFilters collate toLowerCase st) = (0, 1000)"
    by (simp add: clearFilters_def Let_def applyFiltersEffect_def updateUrlEffect_def)
  have m: "filteredEvents (setEvents collate toLowerCase evs (mountPage collate toLowerCase sp))
      = derive collate toLowerCase ((mountPage collate toLowerCase sp)\<lparr>events := evs, loading := False\<rparr>) evs"
    by (simp add: setEvents_def applyFiltersEffect_def)
  have mp: "priceRange ((mountPage collate toLowerCase sp)\<lparr>events := evs, loading := False\<rparr>) = (0, 1000)"
    by (simp add: mountPage_def updateUrlEffect_def applyFiltersEffect_def initialState_def)
  have f: "filteredEvents (clearFilters collate toLowerCase st)
      = derive collate toLowerCase (st\<lparr>searchQuery := [], selectedCategory := [], selectedType := [],
          priceRange := (0, 1000), sortBy := ''date''\<rparr>) (events st)"
    by (simp add: clearFilters_def Let_def applyFiltersEffect_def updateUrlEffect_def)
  have cp: "priceRange (st\<lparr>searchQuery := [], selectedCategory := [], selectedType := [],
      priceRange := (0, 1000), sortBy := ''date''\<rparr>) = (0, 1000)"
    by simp
  show ?thesis
    using i c derive_excludes_above [OF i, of e collate toLowerCase evs]
      derive_excludes_above [OF mp, of e collate toLowerCase evs]
      derive_excludes_above [OF cp, of e collate toLowerCase "events st"]
    by (simp add: m f)
qed

theorem initial_priceRange_excludes_witness:
  "1000 < price (jazzNight\<lparr>price := 1500\<rparr>)
   \<and> jazzNight\<lparr>price := 1500\<rparr> \<notin> set (filteredEvents
        (setEvents (\<lambda>s. s) asciiLowerCase [jazzNight\<lparr>price := 1500\<rparr>, artExpo] (mountPage (\<lambda>s. s) asciiLowerCase [])))
   \<and> jazzNight\<lparr>price := 1500\<rparr> \<notin> set (filteredEvents
        (clearFilters (\<lambda>s. s) asciiLowerCase
          (setEvents (\<lambda>s. s) asciiLowerCase [jazzNight\<lparr>price := 1500\<rparr>, artExpo] (mountPage (\<lambda>s. s) asciiLowerCase []))))
   \<and> filteredEvents
        (setEvents (\<lambda>s. s) asciiLowerCase [jazzNight\<lparr>price := 1500\<rparr>, artExpo] (mountPage (\<lambda>s. s) asciiLowerCase []))
       = [artExpo]"
proof -
  let ?id = "\<lambda>s::string. s"
  let ?e = "jazzNight\<lparr>price := 1500\<rparr>"
  let ?st = "setEvents ?id asciiLowerCase [?e, artExpo] (mountPage ?id asciiLowerCase [])"
  have h: "1000 < price ?e"
    by simp
  have r: "filteredEvents ?st = [artExpo]"
    by code_simp
  from initial_priceRange_excludes [where e = ?e and collate = ?id
      and toLowerCase = asciiLowerCase and sp = "[]"
      and evs = "[?e, artExpo]" and st = ?st] h r
  show ?thesis by blast
qed

end
